theory Spec2Isabelle
  imports Complex_Main
begin

section \<open>The chess clock of script.js\<close>

text \<open>
  The engine of \<^verbatim>\<open>script.js\<close> is one global object \<^verbatim>\<open>state\<close> and the handlers that
  mutate it. Each handler becomes a function from the state to the new state. The two texts
  the handlers write into the page (the status line and the label of the start button) are
  fields of the state, so that what a handler signals can be stated; the other writes to the
  page (CSS classes, the rendered times, the form fields, the reset dialog) are functions of
  the state or independent of it and are left out.
\<close>

subsection \<open>Numbers\<close>

text \<open>
  A JavaScript number is a finite value, \<^verbatim>\<open>NaN\<close>, \<^verbatim>\<open>Infinity\<close> or \<^verbatim>\<open>-Infinity\<close>. A finite
  value is held as a real; the two zeros are one. \<^verbatim>\<open>undefined\<close> becomes \<^verbatim>\<open>NaN\<close> where a
  number is needed.
\<close>

datatype number = Num real | NaN | PosInfinity | NegInfinity

datatype jsval = Undefined | Number number

fun toNumber :: "jsval \<Rightarrow> number" where
  "toNumber Undefined = NaN"
| "toNumber (Number n) = n"

text \<open>
  A product is rounded the way IEEE 754 rounds a double: to the nearest number with a
  significand of 53 bits, a tie going to the even significand; below \<^verbatim>\<open>2^-1022\<close> to the
  nearest multiple of \<^verbatim>\<open>2^-1074\<close>; and from \<^verbatim>\<open>2^1024\<close> on to an infinity.
  \<open>find_expo k x 0\<close> is the binary exponent of \<open>x > 0\<close>, the \<open>n\<close> with
  \<open>2 powi n \<le> x < 2 powi (n + 1)\<close>, found in at most \<open>k\<close> halvings or doublings; the
  product of two doubles is below \<^verbatim>\<open>2^2048\<close>. \<open>round_double x\<close> is the multiple of the
  spacing \<open>2 powi (expo x - 52)\<close> nearest to \<open>x\<close>.
\<close>

fun find_expo :: "nat \<Rightarrow> real \<Rightarrow> int \<Rightarrow> int" where
  "find_expo 0 x e = e"
| "find_expo (Suc k) x e =
     (if 2 \<le> x then find_expo k (x / 2) (e + 1)
      else if x < 1 then find_expo k (x * 2) (e - 1)
      else e)"

definition expo :: "real \<Rightarrow> int" where
  "expo x = max (find_expo 2200 \<bar>x\<bar> 0) (- 1022)"

definition round_even :: "real \<Rightarrow> int" where
  "round_even y =
     (let f = \<lfloor>y\<rfloor>; d = y - of_int f
      in if d < 1 / 2 then f else if 1 / 2 < d then f + 1 else if even f then f else f + 1)"

definition round_double :: "real \<Rightarrow> real" where
  "round_double x = (let q = 2 powi (expo x - 52) in q * of_int (round_even (x / q)))"

definition rounded :: "real \<Rightarrow> number" where
  "rounded x =
     (let r = round_double x
      in if 2 ^ 1024 \<le> r then PosInfinity else if r \<le> - (2 ^ 1024) then NegInfinity else Num r)"

fun mul :: "number \<Rightarrow> number \<Rightarrow> number" where
  "mul (Num a) (Num b) = rounded (a * b)"
| "mul NaN _ = NaN"
| "mul _ NaN = NaN"
| "mul PosInfinity (Num b) = (if b = 0 then NaN else if 0 < b then PosInfinity else NegInfinity)"
| "mul NegInfinity (Num b) = (if b = 0 then NaN else if 0 < b then NegInfinity else PosInfinity)"
| "mul (Num a) PosInfinity = (if a = 0 then NaN else if 0 < a then PosInfinity else NegInfinity)"
| "mul (Num a) NegInfinity = (if a = 0 then NaN else if 0 < a then NegInfinity else PosInfinity)"
| "mul PosInfinity PosInfinity = PosInfinity"
| "mul NegInfinity NegInfinity = PosInfinity"
| "mul PosInfinity NegInfinity = NegInfinity"
| "mul NegInfinity PosInfinity = NegInfinity"

text \<open>
  The code adds only \<^verbatim>\<open>incrementMs\<close> to a time and subtracts only the elapsed time from it.
  A sum or a difference of two finite numbers is left as the real it is, not rounded.
\<close>

fun add :: "number \<Rightarrow> number \<Rightarrow> number" where
  "add (Num a) (Num b) = Num (a + b)"
| "add NaN _ = NaN"
| "add _ NaN = NaN"
| "add PosInfinity NegInfinity = NaN"
| "add NegInfinity PosInfinity = NaN"
| "add PosInfinity _ = PosInfinity"
| "add _ PosInfinity = PosInfinity"
| "add NegInfinity _ = NegInfinity"
| "add _ NegInfinity = NegInfinity"

fun sub :: "number \<Rightarrow> number \<Rightarrow> number" where
  "sub (Num a) (Num b) = Num (a - b)"
| "sub NaN _ = NaN"
| "sub _ NaN = NaN"
| "sub PosInfinity PosInfinity = NaN"
| "sub NegInfinity NegInfinity = NaN"
| "sub PosInfinity _ = PosInfinity"
| "sub NegInfinity _ = NegInfinity"
| "sub _ PosInfinity = NegInfinity"
| "sub _ NegInfinity = PosInfinity"

fun Math_max :: "number \<Rightarrow> number \<Rightarrow> number" where
  "Math_max (Num a) (Num b) = Num (max a b)"
| "Math_max NaN _ = NaN"
| "Math_max _ NaN = NaN"
| "Math_max PosInfinity _ = PosInfinity"
| "Math_max _ PosInfinity = PosInfinity"
| "Math_max NegInfinity b = b"
| "Math_max a NegInfinity = a"

fun isFinite :: "number \<Rightarrow> bool" where
  "isFinite (Num a) = True"
| "isFinite _ = False"


fun at_least :: "number \<Rightarrow> number \<Rightarrow> bool" where
  "at_least (Num a) (Num b) = (b \<le> a)"
| "at_least NaN _ = False"
| "at_least _ NaN = False"
| "at_least _ NegInfinity = True"
| "at_least PosInfinity _ = True"
| "at_least _ _ = False"

subsection \<open>The presets\<close>

record preset =
  label :: string
  minutes :: real
  increment :: real

text \<open>The own properties of the object literal \<^verbatim>\<open>presets\<close>, in the order written.\<close>

definition presets_own :: "(string \<times> preset) list" where
  "presets_own =
    [(''classical'', \<lparr>label = ''Classical'', minutes = 90, increment = 30\<rparr>),
     (''rapid'', \<lparr>label = ''Rapid'', minutes = 15, increment = 10\<rparr>),
     (''standard'', \<lparr>label = ''Standard'', minutes = 10, increment = 0\<rparr>),
     (''blitz'', \<lparr>label = ''Blitz'', minutes = 5, increment = 3\<rparr>),
     (''bullet'', \<lparr>label = ''Bullet'', minutes = 1, increment = 1\<rparr>)]"

text \<open>
  \<^verbatim>\<open>presets\<close> is a plain object, so \<^verbatim>\<open>presets[key]\<close> also finds what every object inherits
  from \<^verbatim>\<open>Object.prototype\<close>. These are the property names of \<^verbatim>\<open>Object.prototype\<close>; each
  holds a function or an object, which is truthy and has no property \<^verbatim>\<open>label\<close>,
  \<^verbatim>\<open>minutes\<close> or \<^verbatim>\<open>increment\<close>.
\<close>

definition Object_prototype :: "string list" where
  "Object_prototype =
    [''constructor'', ''hasOwnProperty'', ''isPrototypeOf'', ''propertyIsEnumerable'',
     ''toLocaleString'', ''toString'', ''valueOf'', ''__proto__'',
     ''__defineGetter__'', ''__defineSetter__'', ''__lookupGetter__'', ''__lookupSetter__'']"

datatype property = Own preset | Inherited | Missing

text \<open>\<^verbatim>\<open>presets[key]\<close>: an own property first, then the prototype, else \<^verbatim>\<open>undefined\<close>.\<close>

definition presets :: "string \<Rightarrow> property" where
  "presets key =
    (case map_of presets_own key of
       Some p \<Rightarrow> Own p
     | None \<Rightarrow> if key \<in> set Object_prototype then Inherited else Missing)"

text \<open>\<^verbatim>\<open>preset.minutes\<close>, \<^verbatim>\<open>preset.increment\<close> and \<^verbatim>\<open>preset.label\<close> (inside a template string).\<close>

fun minutes_of :: "property \<Rightarrow> jsval" where
  "minutes_of (Own p) = Number (Num (minutes p))"
| "minutes_of _ = Undefined"

fun increment_of :: "property \<Rightarrow> jsval" where
  "increment_of (Own p) = Number (Num (increment p))"
| "increment_of _ = Undefined"

fun label_of :: "property \<Rightarrow> string" where
  "label_of (Own p) = label p"
| "label_of _ = ''undefined''"

subsection \<open>The state\<close>

text \<open>
  A player is the index 0 or 1 into \<^verbatim>\<open>state.times\<close>. The code assigns to
  \<^verbatim>\<open>state.activePlayer\<close> only \<^verbatim>\<open>null\<close>, 0 and 1, and it indexes \<^verbatim>\<open>state.times\<close> only by 0, by 1
  and by a number it has compared with \<^verbatim>\<open>state.activePlayer\<close>.
\<close>

datatype player = Player0 | Player1

text \<open>
  \<open>times_ms\<close> is the two-element array \<^verbatim>\<open>state.times\<close>, read and written by player (the
  name \<open>times\<close> is taken by the multiplication of HOL); \<^verbatim>\<open>activePlayer\<close> and \<^verbatim>\<open>lastTick\<close>
  are \<^verbatim>\<open>null\<close> when \<open>None\<close>; \<^verbatim>\<open>raf\<close> tells whether the field holds the handle of a
  requested animation frame. \<^verbatim>\<open>clickPoolIndex\<close> is the variable of that name beside
  \<^verbatim>\<open>state\<close>: it moves on with every click sound played.
\<close>

record state =
  baseMinutes :: jsval
  incrementSeconds :: jsval
  times_ms :: "player \<Rightarrow> number"
  incrementMs :: number
  activePlayer :: "player option"
  running :: bool
  lastTick :: "real option"
  raf :: bool
  presetKey :: string
  status :: string
  startPauseText :: string
  clickPoolIndex :: nat

text \<open>
  The object literal \<^verbatim>\<open>state\<close>. The two texts are the ones of the page's markup; \<^verbatim>\<open>init\<close>
  overwrites both.
\<close>

definition state0 :: state where
  "state0 =
    \<lparr>baseMinutes = Number (Num 15), incrementSeconds = Number (Num 10),
     times_ms = (\<lambda>_. Num 0), incrementMs = mul (Num 10) (Num 1000),
     activePlayer = None, running = False, lastTick = None, raf = False,
     presetKey = ''rapid'', status = [], startPauseText = [], clickPoolIndex = 0\<rparr>"

subsection \<open>The handlers\<close>

definition setStatus :: "string \<Rightarrow> state \<Rightarrow> state" where
  "setStatus text s = s\<lparr>status := text\<rparr>"

definition stopClock :: "state \<Rightarrow> state" where
  "stopClock s = (s\<lparr>running := False\<rparr>)\<lparr>raf := False\<rparr>"

definition scheduleTick :: "state \<Rightarrow> state" where
  "scheduleTick s = s\<lparr>raf := True\<rparr>"

definition resetClock :: "state \<Rightarrow> state" where
  "resetClock s =
    (let base = mul (mul (toNumber (baseMinutes s)) (Num 60)) (Num 1000)
     in setStatus ''Ready''
          (s\<lparr>times_ms := (\<lambda>_. base), activePlayer := None, lastTick := None,
             startPauseText := ''Start''\<rparr>))"

definition confirmReset :: "state \<Rightarrow> state" where
  "confirmReset s = resetClock (stopClock s)"

text \<open>
  \<^verbatim>\<open>if (!preset) return;\<close> returns for \<^verbatim>\<open>undefined\<close> only: a preset object and an inherited
  function or object are truthy.
\<close>

definition applyPreset :: "string \<Rightarrow> state \<Rightarrow> state" where
  "applyPreset key s =
    (let preset = presets key
     in if preset = Missing then s
        else setStatus (label_of preset @ '' loaded'')
               (resetClock (stopClock
                 (s\<lparr>presetKey := key,
                    baseMinutes := minutes_of preset,
                    incrementSeconds := increment_of preset,
                    incrementMs := mul (toNumber (increment_of preset)) (Num 1000)\<rparr>))))"

text \<open>
  \<^verbatim>\<open>applyCustom(minutes, increment)\<close>; the two parameters carry an index here, since
  \<open>minutes\<close> and \<open>increment\<close> are the fields of a preset.
\<close>

definition applyCustom :: "number \<Rightarrow> number \<Rightarrow> state \<Rightarrow> state" where
  "applyCustom minutes\<^sub>i increment\<^sub>i s =
    (let s1 = s\<lparr>presetKey := ''custom'',
                baseMinutes := Number (Math_max (Num 1) minutes\<^sub>i),
                incrementSeconds := Number (Math_max (Num 0) increment\<^sub>i)\<rparr>;
         s2 = s1\<lparr>incrementMs := mul (toNumber (incrementSeconds s1)) (Num 1000)\<rparr>
     in setStatus ''Custom control loaded'' (resetClock (stopClock s2)))"

text \<open>The submit handler of the custom form, given \<^verbatim>\<open>Number(...)\<close> of its two fields.\<close>

definition submitCustom :: "number \<Rightarrow> number \<Rightarrow> state \<Rightarrow> state" where
  "submitCustom minutes\<^sub>i increment\<^sub>i s =
    (if isFinite minutes\<^sub>i \<and> isFinite increment\<^sub>i then applyCustom minutes\<^sub>i increment\<^sub>i s else s)"

definition init :: "state \<Rightarrow> state" where
  "init s = applyPreset (presetKey s) s"

definition toggleStart :: "state \<Rightarrow> state" where
  "toggleStart s =
    (if running s then (setStatus ''Paused'' (stopClock s))\<lparr>startPauseText := ''Resume''\<rparr>
     else
       let s1 = (if activePlayer s = None then s\<lparr>activePlayer := Some Player0\<rparr> else s)
       in scheduleTick
            (setStatus ''Playing''
              (s1\<lparr>running := True, lastTick := None, startPauseText := ''Pause''\<rparr>)))"

definition flagPlayer :: "player \<Rightarrow> state \<Rightarrow> state" where
  "flagPlayer player s =
    (let loser = (if player = Player0 then ''White'' else ''Black'');
         winner = (if player = Player0 then ''Black'' else ''White'')
     in (setStatus (loser @ '' flagged. '' @ winner @ '' wins.'') (stopClock s))
          \<lparr>startPauseText := ''Restart''\<rparr>)"

text \<open>
  The frame callback; \<open>timestamp\<close> is the time the browser passes, a finite number.
  \<open>last\<close> is \<^verbatim>\<open>state.lastTick\<close> after the first \<^verbatim>\<open>if\<close>, which replaces \<^verbatim>\<open>null\<close> by the
  timestamp.
\<close>

definition step :: "real \<Rightarrow> state \<Rightarrow> state" where
  "step timestamp s =
    (if \<not> running s then s
     else
       let last = (case lastTick s of None \<Rightarrow> timestamp | Some l \<Rightarrow> l);
           delta = timestamp - last;
           s2 = s\<lparr>lastTick := Some timestamp\<rparr>
       in case activePlayer s2 of
            None \<Rightarrow> scheduleTick s2
          | Some player \<Rightarrow>
              let s3 = s2\<lparr>times_ms := (times_ms s2)
                         (player := Math_max (Num 0) (sub (times_ms s2 player) (Num delta)))\<rparr>
              in if times_ms s3 player = Num 0 then flagPlayer player s3
                 else scheduleTick s3)"

definition handlePlayerTap :: "player \<Rightarrow> state \<Rightarrow> state" where
  "handlePlayerTap playerIndex s =
    (if \<not> running s \<or> activePlayer s \<noteq> Some playerIndex then s
     else if times_ms s playerIndex = Num 0 then s
     else s\<lparr>times_ms := (times_ms s)
               (playerIndex := add (times_ms s playerIndex) (incrementMs s)),
            activePlayer := Some (if playerIndex = Player0 then Player1 else Player0),
            lastTick := None\<rparr>)"

definition CLICK_POOL_SIZE :: nat where
  "CLICK_POOL_SIZE = 4"

definition playClickSound :: "state \<Rightarrow> state" where
  "playClickSound s = s\<lparr>clickPoolIndex := (clickPoolIndex s + 1) mod CLICK_POOL_SIZE\<rparr>"

definition handlePlayerTapStart :: "player \<Rightarrow> state \<Rightarrow> state" where
  "handlePlayerTapStart playerIndex s =
    (if \<not> running s \<or> activePlayer s \<noteq> Some playerIndex then s else playClickSound s)"

definition swapPlayers :: "state \<Rightarrow> state" where
  "swapPlayers s =
    (let s1 = s\<lparr>times_ms := (times_ms s)
                 (Player0 := times_ms s Player1, Player1 := times_ms s Player0)\<rparr>
     in case activePlayer s1 of
          None \<Rightarrow> s1
        | Some p \<Rightarrow> s1\<lparr>activePlayer := Some (if p = Player0 then Player1 else Player0)\<rparr>)"

subsection \<open>Runs of the clock\<close>

text \<open>
  What the page can do to the clock: a click on a preset button, a submitted custom form,
  the start button, a confirmed reset, the swap button, a tap on a player (the pointer goes
  down, then the click follows), and a frame of the browser.
\<close>

datatype action =
    ApplyPreset string
  | SubmitCustom number number
  | ToggleStart
  | ConfirmReset
  | SwapPlayers
  | TapStart player
  | Tap player
  | Frame real

fun perform :: "action \<Rightarrow> state \<Rightarrow> state" where
  "perform (ApplyPreset key) s = applyPreset key s"
| "perform (SubmitCustom m i) s = submitCustom m i s"
| "perform ToggleStart s = toggleStart s"
| "perform ConfirmReset s = confirmReset s"
| "perform SwapPlayers s = swapPlayers s"
| "perform (TapStart playerIndex) s = handlePlayerTapStart playerIndex s"
| "perform (Tap playerIndex) s = handlePlayerTap playerIndex s"
| "perform (Frame timestamp) s = step timestamp s"

fun run :: "action list \<Rightarrow> state \<Rightarrow> state" where
  "run [] s = s"
| "run (a # as) s = run as (perform a s)"

text \<open>The states of the clock: the page starts with \<^verbatim>\<open>init()\<close> and performs actions.\<close>

inductive reachable :: "state \<Rightarrow> bool" where
  initial: "reachable (init state0)"
| action: "reachable s \<Longrightarrow> reachable (perform a s)"

text \<open>
  The actions that pass no key inherited from \<^verbatim>\<open>Object.prototype\<close> to \<^verbatim>\<open>applyPreset\<close>: its
  key is one of the registry or names nothing at all.
\<close>

fun registered :: "action \<Rightarrow> bool" where
  "registered (ApplyPreset key) = (presets key \<noteq> Inherited)"
| "registered _ = True"

text \<open>The frames of the browser and the presses of the start button.\<close>

fun frame_or_toggle :: "action \<Rightarrow> bool" where
  "frame_or_toggle (Frame timestamp) = True"
| "frame_or_toggle ToggleStart = True"
| "frame_or_toggle _ = False"

text \<open>
  The invariant behind the non-negative times: the times, the increment and the base
  minutes are \<^verbatim>\<open>>= 0\<close>, so none of them is \<^verbatim>\<open>NaN\<close>.
\<close>

definition sound :: "state \<Rightarrow> bool" where
  "sound s \<longleftrightarrow>
     at_least (times_ms s Player0) (Num 0) \<and>
     at_least (times_ms s Player1) (Num 0) \<and>
     at_least (incrementMs s) (Num 0) \<and>
     at_least (toNumber (baseMinutes s)) (Num 0)"

text \<open>
  A flagged clock: the active player has no time left, and when the clock runs the next
  frame measures no elapsed time.
\<close>

definition flagged :: "player \<Rightarrow> state \<Rightarrow> bool" where
  "flagged p s \<longleftrightarrow>
     activePlayer s = Some p \<and> times_ms s p = Num 0 \<and> (running s \<longrightarrow> lastTick s = None)"

text \<open>
  The bullet clock after player 0 has flagged and the start button, then labelled
  \<^verbatim>\<open>Restart\<close>, was pressed once more.
\<close>

definition restarted :: state where
  "restarted =
     run [ApplyPreset ''bullet'', ToggleStart, Frame 0, Frame 60000, ToggleStart] (init state0)"

text \<open>The double nearest to 8.67: what \<^verbatim>\<open>Number("8.67")\<close> gives the submit handler.\<close>

definition double_8_67 :: real where
  "double_8_67 = 4880776096162775 / 2 ^ 49"

section \<open>Properties\<close>

subsection \<open>Rounding\<close>

lemma find_expo_eq:
  "2 powi n \<le> x \<Longrightarrow> x < 2 powi (n + 1) \<Longrightarrow> nat \<bar>n\<bar> \<le> k \<Longrightarrow> find_expo k x e = e + n"
proof (induction k arbitrary: x e n)
  case 0
  then show ?case by simp
next
  case (Suc k)
  show ?case
  proof (cases "2 \<le> x")
    case True
    have "1 \<le> n"
    proof (rule ccontr)
      assume "\<not> 1 \<le> n"
      then have "n + 1 \<le> 1" by simp
      then have "(2::real) powi (n + 1) \<le> 2 powi 1"
        by (intro power_int_increasing) simp_all
      with Suc.prems(2) True show False by simp
    qed
    have a: "2 powi (n - 1) \<le> x / 2"
      using Suc.prems(1) by (simp add: power_int_diff)
    have b: "x / 2 < 2 powi (n - 1 + 1)"
      using Suc.prems(2) by (simp add: power_int_add)
    have c: "nat \<bar>n - 1\<bar> \<le> k"
      using Suc.prems(3) \<open>1 \<le> n\<close> by simp
    from Suc.IH [OF a b c] True show ?thesis by simp
  next
    case False
    show ?thesis
    proof (cases "x < 1")
      case True
      have "n \<le> - 1"
      proof (rule ccontr)
        assume "\<not> n \<le> - 1"
        then have "0 \<le> n" by simp
        then have "(2::real) powi 0 \<le> 2 powi n"
          by (intro power_int_increasing) simp_all
        with Suc.prems(1) True show False by simp
      qed
      have a: "2 powi (n + 1) \<le> x * 2"
        using Suc.prems(1) by (simp add: power_int_add)
      have b: "x * 2 < 2 powi (n + 1 + 1)"
        using Suc.prems(2) by (simp add: power_int_add)
      have c: "nat \<bar>n + 1\<bar> \<le> k"
        using Suc.prems(3) \<open>n \<le> - 1\<close> by simp
      from Suc.IH [OF a b c] True False show ?thesis by simp
    next
      case x1: False
      have "n = 0"
      proof (rule ccontr)
        assume "n \<noteq> 0"
        then consider "1 \<le> n" | "n + 1 \<le> 0" by linarith
        then show False
        proof cases
          case 1
          then have "(2::real) powi 1 \<le> 2 powi n"
            by (intro power_int_increasing) simp_all
          with Suc.prems(1) False show False by simp
        next
          case 2
          then have "(2::real) powi (n + 1) \<le> 2 powi 0"
            by (intro power_int_increasing) simp_all
          with Suc.prems(2) x1 show False by simp
        qed
      qed
      with False x1 show ?thesis by simp
    qed
  qed
qed

lemma expo_eq:
  assumes "2 powi n \<le> \<bar>x\<bar>" and "\<bar>x\<bar> < 2 powi (n + 1)" and "- 1022 \<le> n" and "n \<le> 2200"
  shows "expo x = n"
proof -
  have "nat \<bar>n\<bar> \<le> 2200" using assms(3,4) by simp
  from find_expo_eq [OF assms(1,2) this, of 0] assms(3) show ?thesis
    by (simp add: expo_def)
qed

lemma round_even_of_int: "round_even (of_int k) = k"
  by (simp add: round_even_def)

lemma round_even_nonneg: "0 \<le> y \<Longrightarrow> 0 \<le> round_even y"
  by (auto simp: round_even_def Let_def)

lemma round_double_nonneg: "0 \<le> x \<Longrightarrow> 0 \<le> round_double x"
  by (simp add: round_double_def Let_def round_even_nonneg)


lemma binade: "0 < (x::real) \<Longrightarrow> \<exists>n. 2 powi n \<le> x \<and> x < 2 powi (n + 1)"
proof -
  assume x: "0 < x"
  define n where "n = \<lfloor>log 2 x\<rfloor>"
  with floor_log_eq_powr_iff [of x 2 n] x
  have "2 powr (of_int n) \<le> x" and "x < 2 powr (of_int (n + 1))"
    by simp_all
  moreover have "(2::real) powr (of_int n) = 2 powi n"
    by (rule powr_real_of_int') simp_all
  moreover have "(2::real) powr (of_int (n + 1)) = 2 powi (n + 1)"
    by (rule powr_real_of_int') simp_all
  ultimately have "2 powi n \<le> x \<and> x < 2 powi (n + 1)"
    by simp
  then show ?thesis ..
qed

lemma round_double_eval:
  assumes "2 powi n \<le> \<bar>x\<bar>" and "\<bar>x\<bar> < 2 powi (n + 1)" and "- 1022 \<le> n" and "n \<le> 2200"
  shows "round_double x = 2 powi (n - 52) * of_int (round_even (x / 2 powi (n - 52)))"
  by (simp add: round_double_def Let_def expo_eq [OF assms])

lemma round_double_of_int:
  assumes "\<bar>of_int k :: real\<bar> \<le> 2 ^ 53"
  shows "round_double (of_int k) = of_int k"
proof (cases "k = 0")
  case True
  then show ?thesis
    using round_even_of_int [of 0] by (simp add: round_double_def)
next
  case False
  then have pos: "0 < \<bar>of_int k :: real\<bar>" by simp
  from binade [OF pos] obtain n
    where lo: "2 powi n \<le> \<bar>of_int k :: real\<bar>" and hi: "\<bar>of_int k :: real\<bar> < 2 powi (n + 1)"
    by blast
  from False have "1 \<le> \<bar>k\<bar>" by simp
  then have "(of_int 1 :: real) \<le> of_int \<bar>k\<bar>"
    by (simp only: of_int_le_iff)
  then have k1: "1 \<le> \<bar>of_int k :: real\<bar>" by simp
  have n0: "0 \<le> n"
  proof (rule ccontr)
    assume "\<not> 0 \<le> n"
    then have "n + 1 \<le> 0" by simp
    then have "(2::real) powi (n + 1) \<le> 2 powi 0"
      by (intro power_int_increasing) simp_all
    with hi k1 show False by simp
  qed
  have n53: "n \<le> 53"
  proof (rule ccontr)
    assume "\<not> n \<le> 53"
    then have "54 \<le> n" by simp
    then have "(2::real) powi 54 \<le> 2 powi n"
      by (intro power_int_increasing) simp_all
    with lo assms show False by simp
  qed
  have ev: "round_double (of_int k) =
      2 powi (n - 52) * of_int (round_even (of_int k / 2 powi (n - 52)))"
    using round_double_eval [OF lo hi] n0 n53 by simp
  show ?thesis
  proof (cases "n \<le> 52")
    case True
    define m where "m = nat (52 - n)"
    have q: "(2::real) powi (n - 52) = 1 / 2 ^ m"
      using True by (simp add: m_def power_int_def field_simps)
    have "of_int k / (2::real) powi (n - 52) = of_int (k * 2 ^ m)"
      by (simp add: q)
    then have "round_even (of_int k / 2 powi (n - 52)) = k * 2 ^ m"
      by (simp only: round_even_of_int)
    then show ?thesis
      by (simp add: ev q)
  next
    case False
    with n53 have n: "n = 53" by simp
    from lo n have "2 ^ 53 \<le> \<bar>of_int k :: real\<bar>" by simp
    with assms have a: "\<bar>of_int k :: real\<bar> = 2 ^ 53" by simp
    then have "\<bar>k\<bar> = 2 ^ 53"
      by (metis of_int_abs of_int_eq_numeral_power_cancel_iff)
    then consider "k = 2 ^ 53" | "k = - (2 ^ 53)" by linarith
    then show ?thesis
    proof cases
      case 1
      have "of_int k / (2::real) powi (n - 52) = of_int (2 ^ 52)"
        by (simp add: 1 n)
      then have "round_even (of_int k / 2 powi (n - 52)) = 2 ^ 52"
        by (simp only: round_even_of_int)
      then have "2 powi (n - 52) * of_int (round_even (of_int k / 2 powi (n - 52)))
          = (of_int k :: real)"
        by (simp add: n 1)
      with ev show ?thesis by (simp only:)
    next
      case 2
      have "of_int k / (2::real) powi (n - 52) = of_int (- (2 ^ 52))"
        by (simp add: 2 n)
      then have "round_even (of_int k / 2 powi (n - 52)) = - (2 ^ 52)"
        by (simp only: round_even_of_int)
      then have "2 powi (n - 52) * of_int (round_even (of_int k / 2 powi (n - 52)))
          = (of_int k :: real)"
        by (simp add: n 2)
      with ev show ?thesis by (simp only:)
    qed
  qed
qed

lemma rounded_of_int:
  assumes "\<bar>of_int k :: real\<bar> \<le> 2 ^ 53"
  shows "rounded (of_int k) = Num (of_int k)"
proof -
  have "\<bar>of_int k :: real\<bar> < 2 ^ 1024"
    using assms by (rule order_le_less_trans) simp
  then show ?thesis
    using assms by (simp add: rounded_def round_double_of_int abs_less_iff not_le)
qed

lemma rounded_numeral:
  "(numeral k :: real) \<le> 2 ^ 53 \<Longrightarrow> rounded (numeral k) = Num (numeral k)"
  using rounded_of_int [of "numeral k"] by simp

lemma rounded_0: "rounded 0 = Num 0"
  using rounded_of_int [of 0] by simp

lemma rounded_1: "rounded 1 = Num 1"
  using rounded_of_int [of 1] by simp

text \<open>What evaluates a run of the clock: the handlers, and the products of whole numbers.\<close>

lemmas handlers =
  setStatus_def stopClock_def scheduleTick_def resetClock_def confirmReset_def
  applyPreset_def applyCustom_def submitCustom_def init_def toggleStart_def flagPlayer_def
  step_def handlePlayerTap_def handlePlayerTapStart_def playClickSound_def CLICK_POOL_SIZE_def
  swapPlayers_def presets_def presets_own_def Object_prototype_def state0_def
  rounded_numeral rounded_0 rounded_1

lemma round_even_error: "\<bar>of_int (round_even y) - y\<bar> \<le> 1 / 2"
proof -
  have "of_int \<lfloor>y\<rfloor> \<le> y" and "y < of_int \<lfloor>y\<rfloor> + 1"
    by linarith+
  then show ?thesis
    by (auto simp: round_even_def Let_def)
qed

lemma round_double_error:
  assumes "2 powi (- 1022) \<le> \<bar>x\<bar>" and "\<bar>x\<bar> < 2 powi 2201"
  shows "\<bar>round_double x - x\<bar> \<le> \<bar>x\<bar> / 2 ^ 53"
proof -
  have "(0::real) < 2 powi (- 1022)" by simp
  with assms(1) have pos: "0 < \<bar>x\<bar>" by linarith
  from binade [OF pos] obtain n
    where lo: "2 powi n \<le> \<bar>x\<bar>" and hi: "\<bar>x\<bar> < 2 powi (n + 1)"
    by blast
  have n1: "- 1022 \<le> n"
  proof (rule ccontr)
    assume "\<not> - 1022 \<le> n"
    then have "n + 1 \<le> - 1022" by simp
    then have "(2::real) powi (n + 1) \<le> 2 powi (- 1022)"
      by (intro power_int_increasing) simp_all
    with hi assms(1) show False by linarith
  qed
  have n2: "n \<le> 2200"
  proof (rule ccontr)
    assume "\<not> n \<le> 2200"
    then have "2201 \<le> n" by simp
    then have "(2::real) powi 2201 \<le> 2 powi n"
      by (intro power_int_increasing) simp_all
    with lo assms(2) show False by linarith
  qed
  define q :: real where "q = 2 powi (n - 52)"
  have q0: "0 < q" by (simp add: q_def)
  have ev: "round_double x = q * of_int (round_even (x / q))"
    using round_double_eval [OF lo hi n1 n2] by (simp add: q_def)
  have "round_double x - x = q * (of_int (round_even (x / q)) - x / q)"
    using q0 by (simp add: ev algebra_simps)
  then have "\<bar>round_double x - x\<bar> = q * \<bar>of_int (round_even (x / q)) - x / q\<bar>"
    using q0 by (simp add: abs_mult)
  also have "\<dots> \<le> q * (1 / 2)"
    using q0 round_even_error [of "x / q"] by (intro mult_left_mono) simp_all
  also have "q * (1 / 2) = 2 powi n / 2 ^ 53"
    by (simp add: q_def power_int_diff)
  also have "\<dots> \<le> \<bar>x\<bar> / 2 ^ 53"
    using lo by (simp add: divide_right_mono)
  finally show ?thesis .
qed

text \<open>Products of whole numbers up to \<open>2 ^ 53\<close> are exact; others are near.\<close>

lemma rounded_whole:
  assumes "x \<in> \<int>" and "\<bar>x\<bar> \<le> 2 ^ 53"
  shows "rounded x = Num x"
proof -
  from assms(1) obtain k where "x = of_int k"
    by (auto elim: Ints_cases)
  with assms(2) rounded_of_int [of k] show ?thesis
    by simp
qed

lemma whole_minutes:
  assumes "t \<in> \<int>" and "1 \<le> t" and "t * 60000 \<le> 2 ^ 53"
  shows "mul (mul (Num t) (Num 60)) (Num 1000) = Num (t * 60000)"
proof -
  have a: "t * 60 \<in> \<int>" "t * 60 * 1000 \<in> \<int>"
    using assms(1) by simp_all
  have b: "\<bar>t * 60\<bar> \<le> 2 ^ 53" "\<bar>t * 60 * 1000\<bar> \<le> 2 ^ 53"
    using assms(2,3) by simp_all
  have "mul (Num t) (Num 60) = Num (t * 60)"
    using rounded_whole [OF a(1) b(1)] by simp
  then show ?thesis
    using rounded_whole [OF a(2) b(2)] by simp
qed

lemma whole_increment:
  assumes "i \<in> \<int>" and "0 \<le> i" and "i * 1000 \<le> 2 ^ 53"
  shows "mul (Num i) (Num 1000) = Num (i * 1000)"
proof -
  have "i * 1000 \<in> \<int>" using assms(1) by simp
  moreover have "\<bar>i * 1000\<bar> \<le> 2 ^ 53" using assms(2,3) by simp
  ultimately show ?thesis
    using rounded_whole by simp
qed

lemma rounded_near:
  assumes "1 \<le> x" and "x \<le> 2 ^ 1020"
  shows "\<exists>r. rounded x = Num r \<and> \<bar>r - x\<bar> \<le> x / 2 ^ 53"
proof -
  have "(2::real) powi (- 1022) \<le> 1"
    using power_int_increasing [of "- 1022" 0 "2::real"] by simp
  with assms(1) have lo: "2 powi (- 1022) \<le> \<bar>x\<bar>" by linarith
  have "(2::real) ^ 1020 < 2 powi 2201"
    using power_int_strict_increasing [of 1020 2201 "2::real"] by simp
  with assms have hi: "\<bar>x\<bar> < 2 powi 2201" by linarith
  from round_double_error [OF lo hi] assms(1)
  have e: "\<bar>round_double x - x\<bar> \<le> x / 2 ^ 53" by simp
  have "x / 2 ^ 53 \<le> x" using assms(1) by (simp add: field_simps)
  with e have "round_double x \<le> 2 * x" and "- (2 * x) \<le> round_double x"
    using assms(1) by linarith+
  moreover have "2 * x < 2 ^ 1024"
  proof -
    have "2 * x \<le> 2 * 2 ^ 1020" using assms(2) by simp
    also have "\<dots> < (2::real) ^ 1024" by simp
    finally show ?thesis .
  qed
  ultimately have "rounded x = Num (round_double x)"
    by (simp add: rounded_def Let_def)
  with e show ?thesis by simp
qed

lemma minutes_near:
  assumes "1 \<le> t" and "t \<le> 2 ^ 1000"
  shows "\<exists>v. mul (mul (Num t) (Num 60)) (Num 1000) = Num v \<and>
    \<bar>v - t * 60000\<bar> \<le> t * 60000 / 2 ^ 51"
proof -
  define B :: real where "B = 2 ^ 1000"
  have B: "t \<le> B" "0 \<le> B" using assms(2) by (simp_all add: B_def)
  have big: "B * 2 ^ 17 \<le> 2 ^ 1020"
  proof -
    have "B * 2 ^ 17 = 2 ^ 1017"
      unfolding B_def by (simp only: flip: power_add) simp
    also have "\<dots> \<le> (2::real) ^ 1020"
      by (rule power_increasing) simp_all
    finally show ?thesis .
  qed
  have x1: "1 \<le> t * 60" using assms(1) by simp
  have "t * 60 \<le> B * 2 ^ 17"
    using B assms(1) by (intro mult_mono) simp_all
  with big have x2: "t * 60 \<le> 2 ^ 1020" by linarith
  from rounded_near [OF x1 x2] obtain r
    where r: "rounded (t * 60) = Num r" and re: "\<bar>r - t * 60\<bar> \<le> t * 60 / 2 ^ 53"
    by blast
  have "t * 60 / 2 ^ 53 \<le> t * 60 / 2" using assms(1) by (simp add: field_simps)
  with re have rlo: "t * 30 \<le> r" and rhi: "r \<le> t * 120"
    using assms(1) by linarith+
  have y1: "1 \<le> r * 1000" using rlo assms(1) by simp
  have "r * 1000 \<le> t * 120000" using rhi by simp
  also have "\<dots> \<le> B * 2 ^ 17"
    using B assms(1) by (intro mult_mono) simp_all
  finally have y2: "r * 1000 \<le> 2 ^ 1020" using big by linarith
  from rounded_near [OF y1 y2] obtain v
    where v: "rounded (r * 1000) = Num v" and ve: "\<bar>v - r * 1000\<bar> \<le> r * 1000 / 2 ^ 53"
    by blast
  have "r * 1000 / 2 ^ 53 \<le> t * 120000 / 2 ^ 53"
    using rhi by (simp add: divide_right_mono)
  with ve have 1: "\<bar>v - r * 1000\<bar> \<le> t * 120000 / 2 ^ 53" by linarith
  have "\<bar>r * 1000 - t * 60000\<bar> = \<bar>1000 * (r - t * 60)\<bar>"
    by (simp add: algebra_simps)
  also have "\<dots> = \<bar>1000\<bar> * \<bar>r - t * 60\<bar>"
    by (rule abs_mult)
  also have "\<dots> = 1000 * \<bar>r - t * 60\<bar>"
    by simp
  also have "\<dots> \<le> 1000 * (t * 60 / 2 ^ 53)"
    using re by (intro mult_left_mono) simp_all
  finally have 2: "\<bar>r * 1000 - t * 60000\<bar> \<le> t * 60000 / 2 ^ 53" by simp
  have "\<bar>v - t * 60000\<bar> \<le> \<bar>v - r * 1000\<bar> + \<bar>r * 1000 - t * 60000\<bar>"
    by linarith
  also have "\<dots> \<le> t * 120000 / 2 ^ 53 + t * 60000 / 2 ^ 53"
    using 1 2 by linarith
  also have "\<dots> \<le> t * 60000 / 2 ^ 51"
    using assms(1) by (simp add: field_simps)
  finally have "\<bar>v - t * 60000\<bar> \<le> t * 60000 / 2 ^ 51" .
  with r v show ?thesis by simp
qed

text \<open>The products of the double nearest to 8.67.\<close>

lemma double_8_67_times_60: "round_double (double_8_67 * 60) = 4575727590152602 / 2 ^ 43"
  unfolding double_8_67_def
  by (subst round_double_eval [of 9]) (simp_all add: round_even_def Let_def power_int_def power_one_over)

lemma double_8_67_times_60_times_1000: "round_double (4575727590152602 / 2 ^ 43 * 1000) = 520200 + 1 / 2 ^ 34"
  by (subst round_double_eval [of 18]) (simp_all add: round_even_def Let_def power_int_def power_one_over)

lemma double_of_8_67: "round_double (867 / 100) = double_8_67"
  unfolding double_8_67_def
  by (subst round_double_eval [of 3]) (simp_all add: round_even_def Let_def power_int_def power_one_over)

lemma double_8_67_times_60000: "round_double (double_8_67 * 60000) = 520200"
  unfolding double_8_67_def
  by (subst round_double_eval [of 18]) (simp_all add: round_even_def Let_def power_int_def power_one_over)

lemma rounded_eq: "round_double x = y \<Longrightarrow> \<bar>y\<bar> < 2 ^ 1024 \<Longrightarrow> rounded x = Num y"
  by (simp add: rounded_def Let_def abs_less_iff not_le)

lemma rounded_8_67: "rounded (867 / 100) = Num double_8_67"
  by (rule rounded_eq [OF double_of_8_67]) (simp add: double_8_67_def)

lemma minutes_8_67:
  "mul (mul (Num double_8_67) (Num 60)) (Num 1000) = Num (520200 + 1 / 2 ^ 34)"
proof -
  have "rounded (double_8_67 * 60) = Num (4575727590152602 / 2 ^ 43)"
    by (rule rounded_eq [OF double_8_67_times_60]) simp
  moreover have "rounded (4575727590152602 / 2 ^ 43 * 1000) = Num (520200 + 1 / 2 ^ 34)"
    by (rule rounded_eq [OF double_8_67_times_60_times_1000]) simp
  ultimately show ?thesis
    by (simp only: mul.simps)
qed

lemma minutes_8_67_once: "mul (Num double_8_67) (Num 60000) = Num 520200"
proof -
  have "rounded (double_8_67 * 60000) = Num 520200"
    by (rule rounded_eq [OF double_8_67_times_60000]) simp
  then show ?thesis
    by (simp only: mul.simps)
qed

subsection \<open>Numbers and presets\<close>

lemma rounded_nonneg: "0 \<le> x \<Longrightarrow> at_least (rounded x) (Num 0)"
proof -
  assume "0 \<le> x"
  then have "0 \<le> round_double x"
    by (rule round_double_nonneg)
  then show ?thesis
    by (simp add: rounded_def Let_def)
qed

lemma at_least_zero:
  "at_least n (Num 0) \<longleftrightarrow> (\<exists>r. n = Num r \<and> 0 \<le> r) \<or> n = PosInfinity"
  by (cases n) simp_all

lemma at_least_add: "at_least a (Num 0) \<Longrightarrow> at_least b (Num 0) \<Longrightarrow> at_least (add a b) (Num 0)"
  by (auto simp: at_least_zero)

lemma at_least_mul:
  assumes "at_least a (Num 0)" and "0 < c"
  shows "at_least (mul a (Num c)) (Num 0)"
proof (cases a)
  case (Num r)
  with assms have "0 \<le> r * c" by simp
  then show ?thesis
    by (simp add: Num rounded_nonneg)
qed (use assms in simp_all)

lemma at_least_step: "at_least a (Num 0) \<Longrightarrow> at_least (Math_max (Num 0) (sub a (Num d))) (Num 0)"
  by (cases a) simp_all

lemma at_least_clamp:
  "isFinite a \<Longrightarrow> 0 \<le> c \<Longrightarrow> at_least (Math_max (Num c) a) (Num 0)"
  by (cases a) simp_all

lemma player_neq0: "p \<noteq> Player0 \<longleftrightarrow> p = Player1"
  by (cases p) simp_all

lemma own_preset_bounds:
  "map_of presets_own key = Some p \<Longrightarrow> 1 \<le> minutes p \<and> 0 \<le> increment p"
  by (auto simp: presets_own_def split: if_splits)

lemma presets_Own: "presets key = Own p \<longleftrightarrow> map_of presets_own key = Some p"
  by (simp add: presets_def split: option.splits)

subsection \<open>The times are never negative, but for an inherited key\<close>

lemma sound_times: "sound s \<Longrightarrow> at_least (times_ms s q) (Num 0)"
  by (cases q) (simp_all add: sound_def)

lemma sound_stopClock: "sound s \<Longrightarrow> sound (stopClock s)"
  by (simp add: sound_def stopClock_def)

lemma sound_resetClock: "sound s \<Longrightarrow> sound (resetClock s)"
  by (simp add: sound_def resetClock_def setStatus_def at_least_mul del: mul.simps)

lemma sound_confirmReset: "sound s \<Longrightarrow> sound (confirmReset s)"
  by (simp add: confirmReset_def sound_stopClock sound_resetClock)

lemma sound_applyPreset:
  assumes "presets key \<noteq> Inherited" and "sound s"
  shows "sound (applyPreset key s)"
proof (cases "presets key")
  case (Own p)
  then have b: "1 \<le> minutes p" "0 \<le> increment p"
    using own_preset_bounds [of key p] by (simp_all add: presets_Own)
  let ?s = "s\<lparr>presetKey := key, baseMinutes := Number (Num (minutes p)),
      incrementSeconds := Number (Num (increment p)),
      incrementMs := mul (Num (increment p)) (Num 1000)\<rparr>"
  have "sound ?s"
    using assms(2) b by (simp add: sound_def at_least_mul del: mul.simps)
  then have "sound (resetClock (stopClock ?s))"
    by (intro sound_resetClock sound_stopClock)
  then show ?thesis
    by (simp add: applyPreset_def Own setStatus_def sound_def)
next
  case Inherited
  with assms(1) show ?thesis by simp
next
  case Missing
  with assms(2) show ?thesis by (simp add: applyPreset_def)
qed

lemma sound_applyCustom:
  assumes "isFinite m" and "isFinite i" and "sound s"
  shows "sound (applyCustom m i s)"
proof -
  let ?s = "s\<lparr>presetKey := ''custom'', baseMinutes := Number (Math_max (Num 1) m),
      incrementSeconds := Number (Math_max (Num 0) i),
      incrementMs := mul (Math_max (Num 0) i) (Num 1000)\<rparr>"
  have "sound ?s"
    using assms by (simp add: sound_def at_least_mul at_least_clamp del: mul.simps)
  then have "sound (resetClock (stopClock ?s))"
    by (intro sound_resetClock sound_stopClock)
  then show ?thesis
    by (simp add: applyCustom_def setStatus_def sound_def)
qed

lemma sound_submitCustom: "sound s \<Longrightarrow> sound (submitCustom m i s)"
  by (simp add: submitCustom_def sound_applyCustom)

lemma sound_toggleStart: "sound s \<Longrightarrow> sound (toggleStart s)"
  by (simp add: sound_def toggleStart_def stopClock_def setStatus_def scheduleTick_def)

lemma sound_swapPlayers: "sound s \<Longrightarrow> sound (swapPlayers s)"
  by (simp add: sound_def swapPlayers_def Let_def split: option.splits)

lemma sound_handlePlayerTap: "sound s \<Longrightarrow> sound (handlePlayerTap p s)"
  by (cases p) (simp_all add: sound_def handlePlayerTap_def at_least_add)

lemma sound_handlePlayerTapStart: "sound s \<Longrightarrow> sound (handlePlayerTapStart p s)"
  by (simp add: sound_def handlePlayerTapStart_def playClickSound_def)

lemma sound_step: "sound s \<Longrightarrow> sound (step t s)"
  by (auto simp: sound_def step_def Let_def flagPlayer_def stopClock_def setStatus_def
      scheduleTick_def at_least_step player_neq0 split: option.splits)

lemma sound_init: "sound (init state0)"
  by (simp add: sound_def handlers)

lemma sound_perform: "registered a \<Longrightarrow> sound s \<Longrightarrow> sound (perform a s)"
  by (cases a)
    (simp_all add: sound_applyPreset sound_submitCustom sound_toggleStart sound_confirmReset
      sound_swapPlayers sound_handlePlayerTapStart sound_handlePlayerTap sound_step)

lemma sound_run: "list_all registered as \<Longrightarrow> sound s \<Longrightarrow> sound (run as s)"
  by (induction as arbitrary: s) (simp_all add: sound_perform)

text \<open>
  On every run of the page that passes no inherited key to \<^verbatim>\<open>applyPreset\<close>, both times stay
  \<^verbatim>\<open>>= 0\<close>, whatever the timestamps of the frames.
\<close>

lemma registered_runs_never_negative:
  assumes "list_all registered as"
  shows "at_least (times_ms (run as (init state0)) q) (Num 0)"
  using assms by (intro sound_times sound_run sound_init)

lemma reachable_run: "reachable s \<Longrightarrow> reachable (run as s)"
  by (induction as arbitrary: s) (simp_all add: reachable.action)

text \<open>
  C5 fails on the code. \<^verbatim>\<open>applyPreset\<close> with the inherited key \<^verbatim>\<open>toString\<close>, right after
  \<^verbatim>\<open>init()\<close>, leaves both entries of \<^verbatim>\<open>times\<close> at \<^verbatim>\<open>NaN\<close>, and \<^verbatim>\<open>NaN >= 0\<close> is false.
\<close>

theorem inherited_key_breaks_times:
  "reachable (perform (ApplyPreset ''toString'') (init state0)) \<and>
   at_least (times_ms (init state0) Player0) (Num 0) \<and>
   at_least (times_ms (init state0) Player1) (Num 0) \<and>
   times_ms (perform (ApplyPreset ''toString'') (init state0)) Player0 = NaN \<and>
   times_ms (perform (ApplyPreset ''toString'') (init state0)) Player1 = NaN \<and>
   \<not> at_least (times_ms (perform (ApplyPreset ''toString'') (init state0)) Player0) (Num 0) \<and>
   \<not> at_least (times_ms (perform (ApplyPreset ''toString'') (init state0)) Player1) (Num 0)"
proof -
  have r: "reachable (perform (ApplyPreset ''toString'') (init state0))"
    by (intro reachable.action reachable.initial)
  have t: "times_ms (perform (ApplyPreset ''toString'') (init state0)) Player0 = NaN"
    "times_ms (perform (ApplyPreset ''toString'') (init state0)) Player1 = NaN"
    by (simp_all add: handlers)
  have i: "at_least (times_ms (init state0) Player0) (Num 0)"
    "at_least (times_ms (init state0) Player1) (Num 0)"
    by (simp_all add: handlers)
  from r t i show ?thesis
    by simp
qed

subsection \<open>Flagging\<close>

lemma flagged_step: "flagged p s \<Longrightarrow> flagged p (step t s) \<and> times_ms (step t s) = times_ms s"
  by (auto simp: flagged_def step_def Let_def flagPlayer_def stopClock_def setStatus_def)

lemma flagged_toggleStart:
  "flagged p s \<Longrightarrow> flagged p (toggleStart s) \<and> times_ms (toggleStart s) = times_ms s"
  by (auto simp: flagged_def toggleStart_def stopClock_def setStatus_def scheduleTick_def)

lemma flagged_perform:
  "frame_or_toggle a \<Longrightarrow> flagged p s \<Longrightarrow>
   flagged p (perform a s) \<and> times_ms (perform a s) = times_ms s"
  by (cases a) (simp_all add: flagged_step flagged_toggleStart)

lemma flagged_run:
  "list_all frame_or_toggle as \<Longrightarrow> flagged p s \<Longrightarrow> times_ms (run as s) = times_ms s"
proof (induction as arbitrary: s)
  case Nil
  then show ?case by simp
next
  case (Cons a as)
  from Cons.prems have a: "frame_or_toggle a" and as: "list_all frame_or_toggle as"
    by simp_all
  from flagged_perform [OF a Cons.prems(2)]
  have f: "flagged p (perform a s)" and t: "times_ms (perform a s) = times_ms s"
    by simp_all
  from Cons.IH [OF as f] t show ?case
    by simp
qed

lemma step_flags:
  assumes "running s" and "activePlayer s = Some p" and "times_ms (step t s) p = Num 0"
  shows "step t s =
    flagPlayer p (s\<lparr>lastTick := Some t, times_ms := (times_ms s)(p := Num 0)\<rparr>)"
  using assms
  by (auto simp: step_def Let_def scheduleTick_def split: option.splits if_splits)

text \<open>
  C1. When a frame brings the active player's time to exactly 0 while the clock runs, the
  clock stops running, the flagged player stays the active player, the status names the
  loser, and no later frame changes either time, also when the start button is pressed in
  between.
\<close>

theorem flag_stops_clock:
  assumes "running s" and "activePlayer s = Some p" and "times_ms (step t s) p = Num 0"
  shows "\<not> running (step t s) \<and> activePlayer (step t s) = Some p \<and>
    status (step t s) =
      (if p = Player0 then ''White flagged. Black wins.'' else ''Black flagged. White wins.'') \<and>
    (\<forall>as. list_all frame_or_toggle as \<longrightarrow>
       times_ms (run as (step t s)) = times_ms (step t s))"
proof -
  note eq = step_flags [OF assms]
  have r: "\<not> running (step t s)" and a: "activePlayer (step t s) = Some p"
    by (simp_all add: eq flagPlayer_def stopClock_def setStatus_def assms(2))
  have st: "status (step t s) =
      (if p = Player0 then ''White flagged. Black wins.'' else ''Black flagged. White wins.'')"
    by (simp add: eq flagPlayer_def stopClock_def setStatus_def)
  have "flagged p (step t s)"
    using r a assms(3) by (simp add: flagged_def)
  then have "\<forall>as. list_all frame_or_toggle as \<longrightarrow>
       times_ms (run as (step t s)) = times_ms (step t s)"
    by (simp add: flagged_run)
  with r a st show ?thesis
    by simp
qed

theorem flag_stops_clock_witness:
  "running (run [ApplyPreset ''bullet'', ToggleStart, Frame 0] (init state0)) \<and>
   activePlayer (run [ApplyPreset ''bullet'', ToggleStart, Frame 0] (init state0)) = Some Player0 \<and>
   times_ms (step 60000 (run [ApplyPreset ''bullet'', ToggleStart, Frame 0] (init state0))) Player0
     = Num 0 \<and>
   \<not> running (step 60000 (run [ApplyPreset ''bullet'', ToggleStart, Frame 0] (init state0))) \<and>
   times_ms (run [Frame 60016, ToggleStart, Frame 70000, Frame 70016]
       (step 60000 (run [ApplyPreset ''bullet'', ToggleStart, Frame 0] (init state0))))
     = times_ms (step 60000 (run [ApplyPreset ''bullet'', ToggleStart, Frame 0] (init state0)))"
proof -
  let ?s = "run [ApplyPreset ''bullet'', ToggleStart, Frame 0] (init state0)"
  have h1: "running ?s" and h2: "activePlayer ?s = Some Player0"
    by (simp_all add: handlers)
  have h3: "times_ms (step 60000 ?s) Player0 = Num 0"
    by (simp add: handlers)
  have l: "list_all frame_or_toggle [Frame 60016, ToggleStart, Frame 70000, Frame 70016]"
    by simp
  from flag_stops_clock [OF h1 h2 h3] l h1 h2 h3 show ?thesis
    by blast
qed

subsection \<open>Passing the turn\<close>



subsection \<open>The first frame after a start\<close>




subsection \<open>Ignored taps\<close>

text \<open>
  C7. The click of a tap is ignored when the clock does not run, when the tapped player is
  not the active one, or when that player's time is 0: the whole state stays as it is, the
  status line and the index of the click sounds included.
\<close>

theorem tap_ignored:
  assumes "\<not> running s \<or> activePlayer s \<noteq> Some side \<or> times_ms s side = Num 0"
  shows "handlePlayerTap side s = s"
  using assms by (auto simp: handlePlayerTap_def)

theorem tap_ignored_witness:
  "\<not> running (init state0) \<and>
   handlePlayerTap Player0 (init state0) = init state0 \<and>
   running (toggleStart (init state0)) \<and>
   activePlayer (toggleStart (init state0)) \<noteq> Some Player1 \<and>
   handlePlayerTap Player1 (toggleStart (init state0)) = toggleStart (init state0) \<and>
   running restarted \<and> activePlayer restarted = Some Player0 \<and>
   times_ms restarted Player0 = Num 0 \<and>
   handlePlayerTap Player0 restarted = restarted"
proof -
  have a: "\<not> running (init state0)"
    by (simp add: handlers)
  have b: "running (toggleStart (init state0))"
    "activePlayer (toggleStart (init state0)) \<noteq> Some Player1"
    by (simp_all add: handlers)
  have c: "running restarted" "activePlayer restarted = Some Player0"
    "times_ms restarted Player0 = Num 0"
    by (simp_all add: restarted_def handlers)
  have "handlePlayerTap Player0 (init state0) = init state0"
    using a by (intro tap_ignored) simp
  moreover have "handlePlayerTap Player1 (toggleStart (init state0)) = toggleStart (init state0)"
    using b by (intro tap_ignored) simp
  moreover have "handlePlayerTap Player0 restarted = restarted"
    using c by (intro tap_ignored) simp
  ultimately show ?thesis
    using a b c by simp
qed

subsection \<open>Time controls\<close>

lemma applyCustom_state:
  "applyCustom (Num m) (Num i) s =
     s\<lparr>presetKey := ''custom'', baseMinutes := Number (Num (max 1 m)),
       incrementSeconds := Number (Num (max 0 i)),
       incrementMs := mul (Num (max 0 i)) (Num 1000),
       running := False, raf := False,
       times_ms := (\<lambda>_. mul (mul (Num (max 1 m)) (Num 60)) (Num 1000)),
       activePlayer := None, lastTick := None, startPauseText := ''Start'',
       status := ''Custom control loaded''\<rparr>"
  by (simp add: applyCustom_def resetClock_def stopClock_def setStatus_def del: mul.simps)

lemma applyPreset_own:
  "presets key = Own p \<Longrightarrow>
   applyPreset key s =
     s\<lparr>presetKey := key, baseMinutes := Number (Num (minutes p)),
       incrementSeconds := Number (Num (increment p)),
       incrementMs := mul (Num (increment p)) (Num 1000),
       running := False, raf := False,
       times_ms := (\<lambda>_. mul (mul (Num (minutes p)) (Num 60)) (Num 1000)),
       activePlayer := None, lastTick := None, startPauseText := ''Start'',
       status := label p @ '' loaded''\<rparr>"
  by (simp add: applyPreset_def resetClock_def stopClock_def setStatus_def del: mul.simps)

text \<open>
  C4 as stated fails. With 8.67 minutes the code computes \<^verbatim>\<open>8.67 * 60 * 1000\<close> in two rounded
  products and resets both times to \<^verbatim>\<open>520200.00000000006\<close>, one spacing of doubles above
  520200; \<^verbatim>\<open>8.67 * 60000\<close> is 520200 as a double and a little less as a real.
\<close>

theorem custom_minutes_rounded:
  "1 \<le> double_8_67 \<and>
   rounded (867 / 100) = Num double_8_67 \<and>
   times_ms (applyCustom (Num double_8_67) (Num 0) state0) Player0 = Num (520200 + 1 / 2 ^ 34) \<and>
   times_ms (applyCustom (Num double_8_67) (Num 0) state0) Player1 = Num (520200 + 1 / 2 ^ 34) \<and>
   mul (Num double_8_67) (Num 60000) = Num 520200 \<and>
   times_ms (applyCustom (Num double_8_67) (Num 0) state0) Player0
     \<noteq> mul (Num double_8_67) (Num 60000) \<and>
   times_ms (applyCustom (Num double_8_67) (Num 0) state0) Player0
     \<noteq> Num (double_8_67 * 60000)"
proof -
  have m: "1 \<le> double_8_67" "max 1 double_8_67 = double_8_67"
    by (simp_all add: double_8_67_def)
  have t: "times_ms (applyCustom (Num double_8_67) (Num 0) state0) q = Num (520200 + 1 / 2 ^ 34)"
    for q
    by (simp add: applyCustom_state m minutes_8_67 del: mul.simps)
  have e: "double_8_67 * 60000 \<noteq> 520200 + 1 / 2 ^ 34"
    by (simp add: double_8_67_def)
  have f: "(520200::real) + 1 / 2 ^ 34 \<noteq> 520200"
    by simp
  show ?thesis
    using m(1) e f by (simp add: t rounded_8_67 minutes_8_67_once del: mul.simps)
qed


text \<open>
  C4, amended. A time control with \<open>t \<ge> 1\<close> minutes and an increment of \<open>i \<ge> 0\<close> seconds
  leaves both times at the double product \<^verbatim>\<open>t * 60 * 1000\<close>, \<^verbatim>\<open>incrementMs\<close> at the double
  product \<^verbatim>\<open>i * 1000\<close>, no active player and a clock that does not run. For whole \<open>t\<close> and
  \<open>i\<close> with products up to \<open>2 ^ 53\<close>, as in every preset of the registry, the times are
  \<open>t * 60000\<close> and the increment is \<open>i * 1000\<close> exactly; for any other \<open>t\<close> up to
  \<open>2 ^ 1000\<close> the times are within \<open>t * 60000 / 2 ^ 51\<close> of \<open>t * 60000\<close>.
\<close>

theorem apply_time_control:
  "(1 \<le> t \<and> 0 \<le> i \<longrightarrow>
      times_ms (applyCustom (Num t) (Num i) s) Player0 = mul (mul (Num t) (Num 60)) (Num 1000) \<and>
      times_ms (applyCustom (Num t) (Num i) s) Player1 = mul (mul (Num t) (Num 60)) (Num 1000) \<and>
      incrementMs (applyCustom (Num t) (Num i) s) = mul (Num i) (Num 1000) \<and>
      activePlayer (applyCustom (Num t) (Num i) s) = None \<and>
      \<not> running (applyCustom (Num t) (Num i) s) \<and>
      (t \<in> \<int> \<and> t * 60000 \<le> 2 ^ 53 \<longrightarrow>
         times_ms (applyCustom (Num t) (Num i) s) Player0 = Num (t * 60000) \<and>
         times_ms (applyCustom (Num t) (Num i) s) Player1 = Num (t * 60000)) \<and>
      (i \<in> \<int> \<and> i * 1000 \<le> 2 ^ 53 \<longrightarrow>
         incrementMs (applyCustom (Num t) (Num i) s) = Num (i * 1000)) \<and>
      (t \<le> 2 ^ 1000 \<longrightarrow>
         (\<exists>v. times_ms (applyCustom (Num t) (Num i) s) Player0 = Num v \<and>
              times_ms (applyCustom (Num t) (Num i) s) Player1 = Num v \<and>
              \<bar>v - t * 60000\<bar> \<le> t * 60000 / 2 ^ 51))) \<and>
   (\<forall>p. presets key = Own p \<longrightarrow>
      1 \<le> minutes p \<and> 0 \<le> increment p \<and>
      times_ms (applyPreset key s) Player0 = Num (minutes p * 60000) \<and>
      times_ms (applyPreset key s) Player1 = Num (minutes p * 60000) \<and>
      incrementMs (applyPreset key s) = Num (increment p * 1000) \<and>
      activePlayer (applyPreset key s) = None \<and>
      \<not> running (applyPreset key s))"
proof (intro conjI impI allI)
  fix p
  assume own: "presets key = Own p"
  then have k: "map_of presets_own key = Some p"
    by (simp add: presets_Own)
  from own_preset_bounds [OF k] show "1 \<le> minutes p" and "0 \<le> increment p"
    by simp_all
  from k have v: "mul (mul (Num (minutes p)) (Num 60)) (Num 1000) = Num (minutes p * 60000)"
    "mul (Num (increment p)) (Num 1000) = Num (increment p * 1000)"
    by (auto simp: presets_own_def rounded_numeral rounded_0 split: if_splits)
  show "times_ms (applyPreset key s) Player0 = Num (minutes p * 60000)"
    and "times_ms (applyPreset key s) Player1 = Num (minutes p * 60000)"
    and "incrementMs (applyPreset key s) = Num (increment p * 1000)"
    and "activePlayer (applyPreset key s) = None"
    and "\<not> running (applyPreset key s)"
    by (simp_all add: applyPreset_own [OF own] v del: mul.simps)
next
  assume h: "1 \<le> t \<and> 0 \<le> i"
  then have c: "max 1 t = t" "max 0 i = i"
    by simp_all
  have tm: "times_ms (applyCustom (Num t) (Num i) s) q = mul (mul (Num t) (Num 60)) (Num 1000)"
    for q
    by (simp add: applyCustom_state c del: mul.simps)
  have im: "incrementMs (applyCustom (Num t) (Num i) s) = mul (Num i) (Num 1000)"
    by (simp add: applyCustom_state c del: mul.simps)
  show "times_ms (applyCustom (Num t) (Num i) s) Player0 = mul (mul (Num t) (Num 60)) (Num 1000)"
    and "times_ms (applyCustom (Num t) (Num i) s) Player1 = mul (mul (Num t) (Num 60)) (Num 1000)"
    by (rule tm)+
  show "incrementMs (applyCustom (Num t) (Num i) s) = mul (Num i) (Num 1000)"
    by (rule im)
  show "activePlayer (applyCustom (Num t) (Num i) s) = None"
    and "\<not> running (applyCustom (Num t) (Num i) s)"
    by (simp_all add: applyCustom_state del: mul.simps)
  {
    assume w: "t \<in> \<int> \<and> t * 60000 \<le> 2 ^ 53"
    with h have e: "mul (mul (Num t) (Num 60)) (Num 1000) = Num (t * 60000)"
      by (intro whole_minutes) simp_all
    show "times_ms (applyCustom (Num t) (Num i) s) Player0 = Num (t * 60000)"
      and "times_ms (applyCustom (Num t) (Num i) s) Player1 = Num (t * 60000)"
      by (simp_all only: tm e)
  }
  {
    assume w: "i \<in> \<int> \<and> i * 1000 \<le> 2 ^ 53"
    with h have "mul (Num i) (Num 1000) = Num (i * 1000)"
      by (intro whole_increment) simp_all
    then show "incrementMs (applyCustom (Num t) (Num i) s) = Num (i * 1000)"
      by (simp only: im)
  }
  {
    assume b: "t \<le> 2 ^ 1000"
    from h have "1 \<le> t" by simp
    from minutes_near [OF this b] obtain v
      where "mul (mul (Num t) (Num 60)) (Num 1000) = Num v"
        and "\<bar>v - t * 60000\<bar> \<le> t * 60000 / 2 ^ 51"
      by blast
    then show "\<exists>v. times_ms (applyCustom (Num t) (Num i) s) Player0 = Num v \<and>
        times_ms (applyCustom (Num t) (Num i) s) Player1 = Num v \<and>
        \<bar>v - t * 60000\<bar> \<le> t * 60000 / 2 ^ 51"
      by (simp only: tm) blast
  }
qed

theorem apply_time_control_witness:
  "(1::real) \<le> 3 \<and> (0::real) \<le> 2 \<and> (3::real) \<in> \<int> \<and> (2::real) \<in> \<int> \<and>
   times_ms (applyCustom (Num 3) (Num 2) restarted) Player0 = Num 180000 \<and>
   times_ms (applyCustom (Num 3) (Num 2) restarted) Player1 = Num 180000 \<and>
   incrementMs (applyCustom (Num 3) (Num 2) restarted) = Num 2000 \<and>
   activePlayer (applyCustom (Num 3) (Num 2) restarted) = None \<and>
   \<not> running (applyCustom (Num 3) (Num 2) restarted) \<and>
   presets ''blitz'' = Own \<lparr>label = ''Blitz'', minutes = 5, increment = 3\<rparr> \<and>
   times_ms (applyPreset ''blitz'' restarted) Player0 = Num 300000 \<and>
   times_ms (applyPreset ''blitz'' restarted) Player1 = Num 300000 \<and>
   incrementMs (applyPreset ''blitz'' restarted) = Num 3000 \<and>
   activePlayer (applyPreset ''blitz'' restarted) = None \<and>
   \<not> running (applyPreset ''blitz'' restarted)"
proof -
  have k: "presets ''blitz'' = Own \<lparr>label = ''Blitz'', minutes = 5, increment = 3\<rparr>"
    by (simp add: presets_def presets_own_def)
  have w: "(3::real) \<in> \<int>" "(2::real) \<in> \<int>" "(3::real) * 60000 \<le> 2 ^ 53"
    "(2::real) * 1000 \<le> 2 ^ 53"
    by simp_all
  from apply_time_control [of 3 2 restarted "''blitz''"] k w show ?thesis
    by (simp add: rounded_numeral)
qed

text \<open>
  C8. A custom control of the finite numbers \<open>m\<close> and \<open>i\<close> has \<open>max 1 m\<close> minutes and an
  increment of \<open>max 0 i\<close>: nothing bounds them from above, the submit handler passes every
  finite pair on, and 0.4 minutes with an increment of -5 become 1 and 0.
\<close>

theorem custom_clamps:
  "baseMinutes (applyCustom (Num m) (Num i) s) = Number (Num (max 1 m)) \<and>
   incrementSeconds (applyCustom (Num m) (Num i) s) = Number (Num (max 0 i)) \<and>
   (1 \<le> m \<longrightarrow> baseMinutes (applyCustom (Num m) (Num i) s) = Number (Num m)) \<and>
   (0 \<le> i \<longrightarrow> incrementSeconds (applyCustom (Num m) (Num i) s) = Number (Num i)) \<and>
   submitCustom (Num m) (Num i) s = applyCustom (Num m) (Num i) s \<and>
   baseMinutes (applyCustom (Num 0.4) (Num (- 5)) s) = Number (Num 1) \<and>
   incrementSeconds (applyCustom (Num 0.4) (Num (- 5)) s) = Number (Num 0)"
  by (simp add: applyCustom_state submitCustom_def)

theorem custom_clamps_witness:
  "(1::real) \<le> 100000 \<and> (0::real) \<le> 7200 \<and>
   baseMinutes (applyCustom (Num 100000) (Num 7200) state0) = Number (Num 100000) \<and>
   incrementSeconds (applyCustom (Num 100000) (Num 7200) state0) = Number (Num 7200) \<and>
   baseMinutes (applyCustom (Num 0.4) (Num (- 5)) state0) = Number (Num 1) \<and>
   incrementSeconds (applyCustom (Num 0.4) (Num (- 5)) state0) = Number (Num 0)"
  using custom_clamps [of 100000 7200 state0] by simp

subsection \<open>Unknown preset keys\<close>

text \<open>A key that names no property at all is ignored.\<close>

lemma missing_key_ignored: "presets key = Missing \<Longrightarrow> applyPreset key s = s"
  by (simp add: applyPreset_def)

lemma unknown_key:
  "key \<notin> set (map fst presets_own) \<Longrightarrow> key \<notin> set Object_prototype \<Longrightarrow> presets key = Missing"
  by (simp add: presets_def map_of_eq_None_iff [THEN iffD2])

text \<open>
  C10 fails on the code. \<^verbatim>\<open>toString\<close> is none of the five registered keys, but
  \<^verbatim>\<open>presets["toString"]\<close> is the function inherited from \<^verbatim>\<open>Object.prototype\<close>, so
  \<^verbatim>\<open>applyPreset\<close> does not return early: it stores the key, reads \<^verbatim>\<open>undefined\<close> minutes and
  increment, and resets both times to \<^verbatim>\<open>NaN\<close>.
\<close>

theorem inherited_key_applied:
  "''toString'' \<notin> set (map fst presets_own) \<and>
   presets ''toString'' = Inherited \<and>
   presetKey (init state0) = ''rapid'' \<and>
   presetKey (applyPreset ''toString'' (init state0)) = ''toString'' \<and>
   baseMinutes (applyPreset ''toString'' (init state0)) = Undefined \<and>
   incrementSeconds (applyPreset ''toString'' (init state0)) = Undefined \<and>
   incrementMs (applyPreset ''toString'' (init state0)) = NaN \<and>
   times_ms (applyPreset ''toString'' (init state0)) Player0 = NaN \<and>
   times_ms (applyPreset ''toString'' (init state0)) Player1 = NaN \<and>
   status (applyPreset ''toString'' (init state0)) = ''undefined loaded'' \<and>
   applyPreset ''toString'' (init state0) \<noteq> init state0"
proof -
  have k: "presetKey (init state0) = ''rapid''"
    "presetKey (applyPreset ''toString'' (init state0)) = ''toString''"
    by (simp_all add: handlers)
  then have "applyPreset ''toString'' (init state0) \<noteq> init state0"
    by auto
  then show ?thesis
    using k by (simp add: handlers)
qed

subsection \<open>Swapping the players\<close>

text \<open>
  C6. \<^verbatim>\<open>swapPlayers\<close> exchanges the two times, makes the other player active when there is
  an active player, and leaves \<^verbatim>\<open>running\<close> as it is; from the times 910000 and 900000 with
  player 1 active it gives 900000 and 910000 with player 0 active.
\<close>

theorem swap_exchanges:
  "times_ms (swapPlayers s) Player0 = times_ms s Player1 \<and>
   times_ms (swapPlayers s) Player1 = times_ms s Player0 \<and>
   activePlayer (swapPlayers s) =
     (case activePlayer s of
        None \<Rightarrow> None
      | Some p \<Rightarrow> Some (if p = Player0 then Player1 else Player0)) \<and>
   running (swapPlayers s) = running s \<and>
   (times_ms s Player0 = Num 910000 \<and> times_ms s Player1 = Num 900000 \<and>
    activePlayer s = Some Player1 \<longrightarrow>
      times_ms (swapPlayers s) Player0 = Num 900000 \<and>
      times_ms (swapPlayers s) Player1 = Num 910000 \<and>
      activePlayer (swapPlayers s) = Some Player0)"
  by (simp add: swapPlayers_def Let_def split: option.splits)

theorem swap_exchanges_witness:
  "times_ms (run [ToggleStart, Tap Player0] (init state0)) Player0 = Num 910000 \<and>
   times_ms (run [ToggleStart, Tap Player0] (init state0)) Player1 = Num 900000 \<and>
   activePlayer (run [ToggleStart, Tap Player0] (init state0)) = Some Player1 \<and>
   times_ms (swapPlayers (run [ToggleStart, Tap Player0] (init state0))) Player0 = Num 900000 \<and>
   times_ms (swapPlayers (run [ToggleStart, Tap Player0] (init state0))) Player1 = Num 910000 \<and>
   activePlayer (swapPlayers (run [ToggleStart, Tap Player0] (init state0))) = Some Player0 \<and>
   running (swapPlayers (run [ToggleStart, Tap Player0] (init state0)))"
proof -
  let ?s = "run [ToggleStart, Tap Player0] (init state0)"
  have h: "times_ms ?s Player0 = Num 910000" "times_ms ?s Player1 = Num 900000"
    "activePlayer ?s = Some Player1" "running ?s"
    by (simp_all add: handlers)
  from swap_exchanges [of ?s] h show ?thesis
    by simp
qed

text \<open>
  C9. Swapping twice gives back both times and the active player, and indeed the whole
  state.
\<close>

theorem swap_involution:
  "times_ms (swapPlayers (swapPlayers s)) Player0 = times_ms s Player0 \<and>
   times_ms (swapPlayers (swapPlayers s)) Player1 = times_ms s Player1 \<and>
   activePlayer (swapPlayers (swapPlayers s)) = activePlayer s \<and>
   swapPlayers (swapPlayers s) = s"
proof -
  have "swapPlayers (swapPlayers s) = s"
    by (cases s)
      (auto simp: swapPlayers_def Let_def fun_eq_iff player_neq0 split: option.splits player.splits)
  then show ?thesis
    by simp
qed

theorem swap_involution_witness:
  "swapPlayers (swapPlayers (run [ToggleStart, Tap Player0] (init state0)))
     = run [ToggleStart, Tap Player0] (init state0) \<and>
   times_ms (swapPlayers (run [ToggleStart, Tap Player0] (init state0))) Player0 = Num 900000 \<and>
   times_ms (swapPlayers (swapPlayers (run [ToggleStart, Tap Player0] (init state0)))) Player0
     = Num 910000"
proof -
  have "times_ms (run [ToggleStart, Tap Player0] (init state0)) Player0 = Num 910000"
    "times_ms (swapPlayers (run [ToggleStart, Tap Player0] (init state0))) Player0 = Num 900000"
    by (simp_all add: handlers)
  with swap_involution [of "run [ToggleStart, Tap Player0] (init state0)"] show ?thesis
    by simp
qed

end
